theory Spec2Isabelle
  imports Complex_Main
begin

section \<open>Text\<close>

text \<open>
  A Python \<open>str\<close> is modelled as a \<open>string\<close>; a \<open>char\<close> stands for the code point of
  the same number, so the model covers text whose code points are below 256. The three
  character classes below are the ones Python's \<open>re\<close> uses for \<open>str\<close> patterns
  (\<open>\d\<close>, \<open>\s\<close>, \<open>\w\<close>), restricted to that range.
\<close>

definition code :: "char \<Rightarrow> nat" where
  "code c = of_char c"

definition is_digit :: "char \<Rightarrow> bool" where
  "is_digit c = (48 \<le> code c \<and> code c \<le> 57)"

definition is_space :: "char \<Rightarrow> bool" where
  "is_space c = ((9 \<le> code c \<and> code c \<le> 13) \<or> (28 \<le> code c \<and> code c \<le> 32)
                 \<or> code c = 133 \<or> code c = 160)"

definition is_alpha_ascii :: "char \<Rightarrow> bool" where
  "is_alpha_ascii c = ((65 \<le> code c \<and> code c \<le> 90) \<or> (97 \<le> code c \<and> code c \<le> 122))"

definition is_word :: "char \<Rightarrow> bool" where
  "is_word c = (is_digit c \<or> is_alpha_ascii c \<or> c = CHR ''_''
                \<or> code c \<in> {170, 178, 179, 181, 185, 186, 188, 189, 190}
                \<or> (192 \<le> code c \<and> code c \<le> 214) \<or> (216 \<le> code c \<and> code c \<le> 246)
                \<or> 248 \<le> code c)"

text \<open>Lower-casing of the ASCII letters, for the case-insensitive match of \<open>strptime\<close>.\<close>

definition lower :: "char \<Rightarrow> char" where
  "lower c = (case map_of (zip ''ABCDEFGHIJKLMNOPQRSTUVWXYZ'' ''abcdefghijklmnopqrstuvwxyz'') c of
                None \<Rightarrow> c | Some l \<Rightarrow> l)"

definition digit_val :: "char \<Rightarrow> nat" where
  "digit_val c = code c - 48"

text \<open>The value of a string of decimal digits, most significant digit first.\<close>

definition dec_val :: "string \<Rightarrow> nat" where
  "dec_val s = foldl (\<lambda>n c. 10 * n + digit_val c) 0 s"

text \<open>\<open>p in s\<close> for strings: \<open>p\<close> occurs in \<open>s\<close> as a contiguous substring.\<close>

fun contains :: "string \<Rightarrow> string \<Rightarrow> bool" where
  "contains p [] = (p = [])"
| "contains p (c # cs) = (take (length p) (c # cs) = p \<or> contains p cs)"

text \<open>\<open>s.replace('\n', '')\<close>.\<close>

definition strip_newlines :: "string \<Rightarrow> string" where
  "strip_newlines s = filter (\<lambda>c. c \<noteq> CHR 0x0A) s"

text \<open>\<open>s.split(sep)\<close> for a one-character separator.\<close>

fun split_on :: "char \<Rightarrow> string \<Rightarrow> string list" where
  "split_on sep [] = [[]]"
| "split_on sep (c # cs) =
     (if c = sep then [] # split_on sep cs
      else (case split_on sep cs of [] \<Rightarrow> [[c]] | w # ws \<Rightarrow> (c # w) # ws))"

section \<open>Errors and library conversions\<close>

datatype error = ValueError

text \<open>
  \<open>int(s)\<close> on the strings the program passes to it, which are strings of decimal digits:
  the value, or \<open>ValueError\<close> when \<open>s\<close> is empty or holds another character.
\<close>

definition int_of_str :: "string \<Rightarrow> error + nat" where
  "int_of_str s = (if s \<noteq> [] \<and> list_all is_digit s then Inr (dec_val s) else Inl ValueError)"

text \<open>
  \<open>float(s)\<close> on the strings the program passes to it, which are non-empty strings of
  digits and periods (group 1 of the weight pattern). Python accepts such a string when
  it has at most one period and at least one digit, and raises \<open>ValueError\<close> otherwise.
  The weight is kept as the exact decimal value of the numeral; the rounding of that value
  to a binary double is not modelled.
\<close>

definition float_of_str :: "string \<Rightarrow> error + rat" where
  "float_of_str s =
     (let ip = takeWhile is_digit s; r = dropWhile is_digit s in
      if r = [] then (if ip = [] then Inl ValueError else Inr (of_nat (dec_val ip)))
      else if hd r = CHR ''.'' \<and> list_all is_digit (tl r) \<and> (ip \<noteq> [] \<or> tl r \<noteq> [])
      then Inr (of_nat (dec_val (ip @ tl r)) / 10 ^ length (tl r))
      else Inl ValueError)"

section \<open>Timestamps\<close>

text \<open>A naive \<open>datetime\<close> object.\<close>

record datetime =
  year :: nat
  month :: nat
  day :: nat
  hour :: nat
  minute :: nat
  second :: nat
  microsecond :: nat

text \<open>\<open>datetime.min\<close>.\<close>

definition datetime_min :: datetime where
  "datetime_min = \<lparr>year = 1, month = 1, day = 1, hour = 0, minute = 0, second = 0, microsecond = 0\<rparr>"

definition date_of :: "datetime \<Rightarrow> nat \<times> nat \<times> nat" where
  "date_of d = (year d, month d, day d)"

definition is_leap :: "nat \<Rightarrow> bool" where
  "is_leap y = (y mod 4 = 0 \<and> (y mod 100 \<noteq> 0 \<or> y mod 400 = 0))"

definition days_in_month :: "nat \<Rightarrow> nat \<Rightarrow> nat" where
  "days_in_month y m =
     (if m = 2 then (if is_leap y then 29 else 28)
      else if m = 4 \<or> m = 6 \<or> m = 9 \<or> m = 11 then 30 else 31)"

definition valid_date :: "nat \<Rightarrow> nat \<Rightarrow> nat \<Rightarrow> bool" where
  "valid_date y m d = (1 \<le> y \<and> y \<le> 9999 \<and> 1 \<le> m \<and> m \<le> 12 \<and> 1 \<le> d \<and> d \<le> days_in_month y m)"

text \<open>
  \<open>date.weekday()\<close>: Monday is 0. The program never calls it; it is here to say what the
  actual weekday of a date is.
\<close>

definition days_before_month :: "nat \<Rightarrow> nat \<Rightarrow> nat" where
  "days_before_month y m = sum_list (map (days_in_month y) [1..<m])"

definition toordinal :: "nat \<Rightarrow> nat \<Rightarrow> nat \<Rightarrow> nat" where
  "toordinal y m d =
     (y - 1) * 365 + (y - 1) div 4 - (y - 1) div 100 + (y - 1) div 400 + days_before_month y m + d"

definition weekday :: "datetime \<Rightarrow> nat" where
  "weekday d = (toordinal (year d) (month d) (day d) + 6) mod 7"

text \<open>
  \<open>d.replace(hour=h, minute=m)\<close>: a copy of \<open>d\<close> with the two fields replaced;
  \<open>ValueError\<close> when the hour is not in 0..23 or the minute not in 0..59.
\<close>

definition replace_hm :: "datetime \<Rightarrow> nat \<Rightarrow> nat \<Rightarrow> error + datetime" where
  "replace_hm d h m =
     (if h \<le> 23 \<and> m \<le> 59 then Inr (d\<lparr>hour := h, minute := m\<rparr>) else Inl ValueError)"

section \<open>\<open>datetime.strptime\<close> with the format \<open>%a, %b %d, %Y\<close>\<close>

text \<open>
  In the C locale \<open>strptime\<close> turns the format into the regular expression
  \<^verbatim>\<open>(?P<a>mon|tue|wed|thu|fri|sat|sun),\s+(?P<b>jan|...|dec)\s+(?P<d>3[0-1]|[1-2]\d|0[1-9]|[1-9]| [1-9]),\s+(?P<Y>\d\d\d\d)\<close>
  matched case-insensitively at the start of the text. It raises \<open>ValueError\<close> when the
  expression does not match, when text is left after the match, and when the fields are
  not a date of the calendar. The weekday field is read and then dropped: the result is
  built from year, month and day, with the time of day at midnight.
\<close>

definition a_weekday :: "(string \<times> nat) list" where
  "a_weekday = [(''mon'', 0), (''tue'', 1), (''wed'', 2), (''thu'', 3), (''fri'', 4),
                (''sat'', 5), (''sun'', 6)]"

definition a_month :: "(string \<times> nat) list" where
  "a_month = [(''jan'', 1), (''feb'', 2), (''mar'', 3), (''apr'', 4), (''may'', 5), (''jun'', 6),
              (''jul'', 7), (''aug'', 8), (''sep'', 9), (''oct'', 10), (''nov'', 11), (''dec'', 12)]"

text \<open>A literal of the pattern, matched case-insensitively: the text after it.\<close>

fun match_ci :: "string \<Rightarrow> string \<Rightarrow> string option" where
  "match_ci [] s = Some s"
| "match_ci (p # ps) [] = None"
| "match_ci (p # ps) (c # cs) = (if lower c = p then match_ci ps cs else None)"

text \<open>
  An alternation of names, each with the number the locale's table gives it (the weekday
  from 0, the month from 1): the number of the first name that matches and the text after
  it. The names of one table are distinct and of the same length, so at most one of them
  matches.
\<close>

fun match_names :: "(string \<times> nat) list \<Rightarrow> string \<Rightarrow> (nat \<times> string) option" where
  "match_names [] s = None"
| "match_names ((n, i) # ns) s =
     (case match_ci n s of Some r \<Rightarrow> Some (i, r) | None \<Rightarrow> match_names ns s)"

text \<open>
  \<open>\s+\<close>: one or more white-space characters, as many as there are. What follows
  \<open>\s+\<close> in the pattern is a name or a digit, except for the day's last alternative
  \<open> [1-9]\<close>; giving a space back to that alternative reads the same day as the
  alternative \<open>[1-9]\<close> does after the whole run.
\<close>

definition spaces1 :: "string \<Rightarrow> string option" where
  "spaces1 s = (case s of [] \<Rightarrow> None
                | c # cs \<Rightarrow> if is_space c then Some (dropWhile is_space cs) else None)"

text \<open>
  The day: the two-digit alternatives \<open>3[0-1]\<close>, \<open>[1-2]\d\<close>, \<open>0[1-9]\<close>, then the
  one-digit alternative \<open>[1-9]\<close>. A comma follows the day in the pattern, so when a
  two-digit alternative matches, falling back to one digit cannot succeed.
\<close>

definition day_field :: "string \<Rightarrow> (nat \<times> string) option" where
  "day_field s =
     (case s of
        a # b # r \<Rightarrow>
          if (a = CHR ''3'' \<and> (b = CHR ''0'' \<or> b = CHR ''1''))
             \<or> ((a = CHR ''1'' \<or> a = CHR ''2'') \<and> is_digit b)
             \<or> (a = CHR ''0'' \<and> is_digit b \<and> b \<noteq> CHR ''0'')
          then Some (dec_val [a, b], r)
          else if is_digit a \<and> a \<noteq> CHR ''0'' then Some (digit_val a, b # r) else None
      | [a] \<Rightarrow> if is_digit a \<and> a \<noteq> CHR ''0'' then Some (digit_val a, []) else None
      | [] \<Rightarrow> None)"

text \<open>The year: \<open>\d\d\d\d\<close>.\<close>

definition year_field :: "string \<Rightarrow> (nat \<times> string) option" where
  "year_field s =
     (case s of
        a # b # c # d # r \<Rightarrow>
          if is_digit a \<and> is_digit b \<and> is_digit c \<and> is_digit d
          then Some (dec_val [a, b, c, d], r) else None
      | _ \<Rightarrow> None)"

text \<open>
  The match of the whole expression: weekday index, month, day, year, and the text left
  after the match.
\<close>

definition match_format :: "string \<Rightarrow> ((nat \<times> nat \<times> nat \<times> nat) \<times> string) option" where
  "match_format s =
     (case match_names a_weekday s of None \<Rightarrow> None | Some (wd, s1) \<Rightarrow>
      case match_ci '','' s1 of None \<Rightarrow> None | Some s2 \<Rightarrow>
      case spaces1 s2 of None \<Rightarrow> None | Some s3 \<Rightarrow>
      case match_names a_month s3 of None \<Rightarrow> None | Some (mo, s4) \<Rightarrow>
      case spaces1 s4 of None \<Rightarrow> None | Some s5 \<Rightarrow>
      case day_field s5 of None \<Rightarrow> None | Some (d, s6) \<Rightarrow>
      case match_ci '','' s6 of None \<Rightarrow> None | Some s7 \<Rightarrow>
      case spaces1 s7 of None \<Rightarrow> None | Some s8 \<Rightarrow>
      case year_field s8 of None \<Rightarrow> None | Some (y, s9) \<Rightarrow> Some ((wd, mo, d, y), s9))"

definition strptime :: "string \<Rightarrow> error + datetime" where
  "strptime s =
     (case match_format s of
        None \<Rightarrow> Inl ValueError
      | Some ((wd, mo, d, y), rest) \<Rightarrow>
          if rest \<noteq> [] then Inl ValueError
          else if valid_date y mo d
          then Inr \<lparr>year = y, month = mo, day = d, hour = 0, minute = 0, second = 0, microsecond = 0\<rparr>
          else Inl ValueError)"

text \<open>
  \<open>convert_to_datetime\<close>: \<open>(True, date_obj)\<close> is \<open>Some date_obj\<close>, \<open>(False, None)\<close>
  is \<open>None\<close>; the \<open>ValueError\<close> of \<open>strptime\<close> is caught.
\<close>

definition convert_to_datetime :: "string \<Rightarrow> datetime option" where
  "convert_to_datetime date_text =
     (case strptime date_text of Inr date_obj \<Rightarrow> Some date_obj | Inl ValueError \<Rightarrow> None)"

section \<open>The two searches of \<open>parse_weight_entry\<close>\<close>

text \<open>
  \<open>\b\<close> holds between two neighbours when exactly one of them is a word character;
  the outside of the text counts as not a word character.
\<close>

definition opt_word :: "char option \<Rightarrow> bool" where
  "opt_word x = (case x of None \<Rightarrow> False | Some c \<Rightarrow> is_word c)"

definition word_boundary :: "char option \<Rightarrow> char option \<Rightarrow> bool" where
  "word_boundary p n = (opt_word p \<noteq> opt_word n)"

text \<open>
  The pattern \<^verbatim>\<open>\b\d{2}:\d{2}\b\<close> at the head of \<open>s\<close>, where \<open>prev\<close> is the character
  before \<open>s\<close> in the text: the matched text.
\<close>

definition time_at :: "char option \<Rightarrow> string \<Rightarrow> string option" where
  "time_at prev s =
     (case s of
        a # b # c # d # e # r \<Rightarrow>
          if word_boundary prev (Some a) \<and> is_digit a \<and> is_digit b \<and> c = CHR '':''
             \<and> is_digit d \<and> is_digit e
             \<and> word_boundary (Some e) (case r of [] \<Rightarrow> None | f # _ \<Rightarrow> Some f)
          then Some [a, b, c, d, e] else None
      | _ \<Rightarrow> None)"

text \<open>\<open>re.search\<close> with that pattern: the match at the leftmost position that has one.\<close>

fun search_time :: "char option \<Rightarrow> string \<Rightarrow> string option" where
  "search_time prev [] = None"
| "search_time prev (c # cs) =
     (case time_at prev (c # cs) of Some t \<Rightarrow> Some t | None \<Rightarrow> search_time (Some c) cs)"

definition is_numchar :: "char \<Rightarrow> bool" where
  "is_numchar c = (is_digit c \<or> c = CHR ''.'')"

text \<open>
  The pattern \<^verbatim>\<open>Weight\s([\d.]+)kg\<close> at the head of \<open>s\<close>: group 1. The group takes the
  whole run of digits and periods: a shorter one would leave a digit or a period where
  the pattern wants \<open>k\<close>.
\<close>

definition weight_at :: "string \<Rightarrow> string option" where
  "weight_at s =
     (if take 6 s = ''Weight'' then
        (case drop 6 s of
           [] \<Rightarrow> None
         | c # r \<Rightarrow>
             if is_space c \<and> takeWhile is_numchar r \<noteq> [] \<and> take 2 (dropWhile is_numchar r) = ''kg''
             then Some (takeWhile is_numchar r) else None)
      else None)"

fun search_weight :: "string \<Rightarrow> string option" where
  "search_weight [] = None"
| "search_weight (c # cs) =
     (case weight_at (c # cs) of Some g \<Rightarrow> Some g | None \<Rightarrow> search_weight cs)"

section \<open>The program\<close>

text \<open>
  \<open>parse_weight_entry\<close>: \<open>(True, (time, weight))\<close> is \<open>Inr (Some (time, weight))\<close>,
  \<open>(False, None)\<close> is \<open>Inr None\<close>; the \<open>ValueError\<close> of \<open>float\<close> is not caught.
\<close>

definition parse_weight_entry :: "string \<Rightarrow> error + (string \<times> rat) option" where
  "parse_weight_entry text =
     (if contains ''Weight'' text then
        (case (search_time None text, search_weight text) of
           (Some time, Some g) \<Rightarrow>
             (case float_of_str g of
                Inl e \<Rightarrow> Inl e
              | Inr weight \<Rightarrow> Inr (Some (time, weight)))
         | _ \<Rightarrow> Inr None)
      else Inr None)"

text \<open>\<open>hours, minutes = map(int, time_str.split(":"))\<close>.\<close>

definition hours_minutes :: "string \<Rightarrow> error + (nat \<times> nat)" where
  "hours_minutes time_str =
     (case map int_of_str (split_on (CHR '':'') time_str) of
        [Inr hours, Inr minutes] \<Rightarrow> Inr (hours, minutes)
      | _ \<Rightarrow> Inl ValueError)"

text \<open>The local variables of \<open>process_file\<close> that the loop changes.\<close>

record state =
  current_date :: datetime
  weight_data :: "datetime \<rightharpoonup> rat"

definition init_state :: state where
  "init_state = \<lparr>current_date = datetime_min, weight_data = Map.empty\<rparr>"

text \<open>The body of the loop of \<open>process_file\<close>, on one line as the file yields it.\<close>

definition process_line :: "state \<Rightarrow> string \<Rightarrow> error + state" where
  "process_line st raw =
     (let line_text = strip_newlines raw;
          st1 = (case convert_to_datetime line_text of
                   Some v \<Rightarrow> st\<lparr>current_date := v\<rparr>
                 | None \<Rightarrow> st)
      in case parse_weight_entry line_text of
           Inl e \<Rightarrow> Inl e
         | Inr None \<Rightarrow> Inr st1
         | Inr (Some (time_str, weight)) \<Rightarrow>
             (case hours_minutes time_str of
                Inl e \<Rightarrow> Inl e
              | Inr (hours, minutes) \<Rightarrow>
                  (case replace_hm (current_date st1) hours minutes of
                     Inl e \<Rightarrow> Inl e
                   | Inr cd \<Rightarrow>
                       Inr \<lparr>current_date = cd, weight_data = (weight_data st1)(cd \<mapsto> weight)\<rparr>)))"

text \<open>The loop: it stops at the first line that raises.\<close>

fun process_lines :: "state \<Rightarrow> string list \<Rightarrow> error + state" where
  "process_lines st [] = Inr st"
| "process_lines st (l # ls) =
     (case process_line st l of Inl e \<Rightarrow> Inl e | Inr st' \<Rightarrow> process_lines st' ls)"

text \<open>
  The environment. A path names no file, or a file that cannot be opened for reading
  (an \<open>OSError\<close> other than \<open>FileNotFoundError\<close>), or a file that opens; a file that
  opens yields a list of lines and then either ends or fails with an \<open>OSError\<close>.
  The lines are text already: a failure to decode the file's bytes is outside the model.
  Standard output is the list of the lines printed so far.
\<close>

datatype read_end = Eof | ReadError

datatype text_file = Unopenable | Readable "string list" read_end

record world =
  files :: "string \<rightharpoonup> text_file"
  stdout :: "string list"

definition print_line :: "string \<Rightarrow> world \<Rightarrow> world" where
  "print_line s w = w\<lparr>stdout := stdout w @ [s]\<rparr>"

definition not_found_msg :: "string \<Rightarrow> string" where
  "not_found_msg file_name =
     ''Error: The file '' @ [CHR 0x27] @ file_name @ [CHR 0x27] @ '' was not found.''"

definition could_not_read_msg :: "string \<Rightarrow> string" where
  "could_not_read_msg file_name =
     ''Error: Could not read the file '' @ [CHR 0x27] @ file_name @ [CHR 0x27] @ ''.''"

text \<open>
  \<open>process_file\<close>: the mapping it returns, or the exception that leaves it, and the
  world after the call.
\<close>

definition process_file :: "world \<Rightarrow> string \<Rightarrow> (error + (datetime \<rightharpoonup> rat)) \<times> world" where
  "process_file w file_name =
     (case files w file_name of
        None \<Rightarrow> (Inr Map.empty, print_line (not_found_msg file_name) w)
      | Some Unopenable \<Rightarrow> (Inr Map.empty, print_line (could_not_read_msg file_name) w)
      | Some (Readable raw e) \<Rightarrow>
          (case process_lines init_state raw of
             Inl err \<Rightarrow> (Inl err, w)
           | Inr st \<Rightarrow>
               (case e of
                  Eof \<Rightarrow> (Inr (weight_data st), w)
                | ReadError \<Rightarrow> (Inr (weight_data st), print_line (could_not_read_msg file_name) w))))"

text \<open>
  \<open>plot_weight_data\<close>. With no observation \<open>x\<close> is an array of no rows, and
  \<open>LinearRegression.fit\<close> raises \<open>ValueError\<close>: it wants at least one sample. What
  numpy, scikit-learn and matplotlib do with one observation or more is floating-point
  work outside this model: it is the parameter \<open>fit_and_render\<close>.
\<close>

definition plot_weight_data ::
  "((datetime \<rightharpoonup> rat) \<Rightarrow> world \<Rightarrow> (error + unit) \<times> world) \<Rightarrow>
   (datetime \<rightharpoonup> rat) \<Rightarrow> world \<Rightarrow> (error + unit) \<times> world" where
  "plot_weight_data fit_and_render wd w =
     (if wd = Map.empty then (Inl ValueError, w) else fit_and_render wd w)"

definition main ::
  "((datetime \<rightharpoonup> rat) \<Rightarrow> world \<Rightarrow> (error + unit) \<times> world) \<Rightarrow>
   world \<Rightarrow> (error + unit) \<times> world" where
  "main fit_and_render w =
     (case process_file w ''log/[PiyoLog]Nov.txt'' of
        (Inl e, w') \<Rightarrow> (Inl e, w')
      | (Inr wd, w') \<Rightarrow> plot_weight_data fit_and_render wd w')"

text \<open>The exit status of the interpreter: 1 when an exception leaves \<open>main\<close>.\<close>

definition exit_status :: "error + unit \<Rightarrow> nat" where
  "exit_status r = (case r of Inl _ \<Rightarrow> 1 | Inr _ \<Rightarrow> 0)"

section \<open>What the lines of a file say\<close>

text \<open>
  The notions the properties below are stated with. They are built from the program's
  own two classifications, \<open>convert_to_datetime\<close> and \<open>parse_weight_entry\<close>.

  \<open>date_before pre\<close> is the date (year, month, day) of the last date header among the
  lines \<open>pre\<close>, and the date of \<open>datetime.min\<close> when none of them is a date header.
\<close>

definition header_step :: "nat \<times> nat \<times> nat \<Rightarrow> string \<Rightarrow> nat \<times> nat \<times> nat" where
  "header_step ymd raw =
     (case convert_to_datetime (strip_newlines raw) of Some v \<Rightarrow> date_of v | None \<Rightarrow> ymd)"

definition date_before :: "string list \<Rightarrow> nat \<times> nat \<times> nat" where
  "date_before pre = foldl header_step (date_of datetime_min) pre"

definition at_midnight :: "nat \<times> nat \<times> nat \<Rightarrow> datetime" where
  "at_midnight ymd =
     (case ymd of (y, mo, d) \<Rightarrow>
        \<lparr>year = y, month = mo, day = d, hour = 0, minute = 0, second = 0, microsecond = 0\<rparr>)"

text \<open>
  The observation of a weight line, given the date that holds before it: the timestamp
  made of that date and the line's hour and minute, and the weight.
\<close>

definition line_obs :: "nat \<times> nat \<times> nat \<Rightarrow> string \<Rightarrow> (datetime \<times> rat) option" where
  "line_obs ymd raw =
     (case parse_weight_entry (strip_newlines raw) of
        Inl e \<Rightarrow> None
      | Inr None \<Rightarrow> None
      | Inr (Some (time_str, weight)) \<Rightarrow>
          (case hours_minutes time_str of
             Inl e \<Rightarrow> None
           | Inr (hours, minutes) \<Rightarrow>
               (case replace_hm (at_midnight ymd) hours minutes of
                  Inl e \<Rightarrow> None
                | Inr k \<Rightarrow> Some (k, weight))))"

text \<open>What line \<open>i\<close> of a file resolves to: its observation under the date before it.\<close>

definition resolves_to :: "string list \<Rightarrow> nat \<Rightarrow> (datetime \<times> rat) option" where
  "resolves_to raw i = line_obs (date_before (take i raw)) (raw ! i)"


text \<open>
  \<open>last_write raw k v\<close>: some line of the file resolves to the timestamp \<open>k\<close> with the
  weight \<open>v\<close>, and no later line resolves to \<open>k\<close>.
\<close>

definition last_write :: "string list \<Rightarrow> datetime \<Rightarrow> rat \<Rightarrow> bool" where
  "last_write raw k v =
     (\<exists>j<length raw. resolves_to raw j = Some (k, v)
        \<and> (\<forall>n. j < n \<and> n < length raw \<longrightarrow> (\<forall>v'. resolves_to raw n \<noteq> Some (k, v'))))"

text \<open>
  Example 2 of the specification, as the file yields its lines, in a world where it is
  the file that \<open>main\<close> reads; and the timestamp 2024-11-06 06:00.
\<close>

definition example_lines :: "string list" where
  "example_lines =
     [''Wed, Nov 06, 2024'' @ [CHR 0x0A],
      ''06:00 Weight 70.5kg'' @ [CHR 0x0A],
      ''06:00 Weight 71.0kg'' @ [CHR 0x0A]]"

definition example_world :: "read_end \<Rightarrow> world" where
  "example_world e = \<lparr>files = [''log/[PiyoLog]Nov.txt'' \<mapsto> Readable example_lines e], stdout = []\<rparr>"

definition example_key :: datetime where
  "example_key = \<lparr>year = 2024, month = 11, day = 6, hour = 6, minute = 0, second = 0, microsecond = 0\<rparr>"

section \<open>A date header is never a weight entry\<close>

text \<open>
  The time pattern needs a colon, and no text that \<open>strptime\<close> accepts has one.
\<close>

lemma colon_not_digit: "\<not> is_digit (CHR '':'')"
  by (simp add: is_digit_def code_def)

lemma colon_not_space: "\<not> is_space (CHR '':'')"
  by (simp add: is_space_def code_def)

lemma lower_colon: "lower (CHR '':'') = CHR '':''"
  by (simp add: lower_def)

lemma in_dropWhile: "x \<in> set xs \<Longrightarrow> \<not> P x \<Longrightarrow> x \<in> set (dropWhile P xs)"
  by (induction xs) auto

lemma match_ci_colon:
  "match_ci p s = Some r \<Longrightarrow> CHR '':'' \<notin> set p \<Longrightarrow> CHR '':'' \<in> set s \<Longrightarrow> CHR '':'' \<in> set r"
proof (induction p s rule: match_ci.induct)
  case (1 s)
  then show ?case by simp
next
  case (2 p ps)
  then show ?case by simp
next
  case (3 p ps c cs)
  from "3.prems"(1) have c: "lower c = p"
    by (simp split: if_splits)
  from "3.prems"(1) have m: "match_ci ps cs = Some r"
    by (simp split: if_splits)
  from "3.prems"(2) have p: "p \<noteq> CHR '':''" and ps: "CHR '':'' \<notin> set ps"
    by auto
  from c p lower_colon have "c \<noteq> CHR '':''" by auto
  with "3.prems"(3) have "CHR '':'' \<in> set cs" by simp
  with "3.IH" [OF c m ps] show ?case .
qed

lemma match_names_colon:
  "match_names tab s = Some (i, r) \<Longrightarrow> \<forall>n \<in> set (map fst tab). CHR '':'' \<notin> set n \<Longrightarrow>
   CHR '':'' \<in> set s \<Longrightarrow> CHR '':'' \<in> set r"
proof (induction tab s rule: match_names.induct)
  case (1 s)
  then show ?case by simp
next
  case (2 n j ns s)
  show ?case
  proof (cases "match_ci n s")
    case None
    with "2.prems" "2.IH" show ?thesis by simp
  next
    case (Some r')
    with "2.prems"(1) have "r' = r" by simp
    with Some have "match_ci n s = Some r" by simp
    moreover from "2.prems"(2) have "CHR '':'' \<notin> set n" by simp
    ultimately show ?thesis using "2.prems"(3) by (rule match_ci_colon)
  qed
qed

lemma spaces1_colon:
  assumes "spaces1 s = Some r" and "CHR '':'' \<in> set s"
  shows "CHR '':'' \<in> set r"
proof (cases s)
  case Nil
  with assms show ?thesis by simp
next
  case (Cons c cs)
  with assms(1) have c: "is_space c" and r: "r = dropWhile is_space cs"
    by (simp_all add: spaces1_def split: if_splits)
  from c colon_not_space have "c \<noteq> CHR '':''" by auto
  with assms(2) Cons have "CHR '':'' \<in> set cs" by simp
  then show ?thesis unfolding r using colon_not_space by (rule in_dropWhile)
qed

lemma day_field_colon:
  assumes "day_field s = Some (d, r)" and "CHR '':'' \<in> set s"
  shows "CHR '':'' \<in> set r"
proof (cases s)
  case Nil
  with assms show ?thesis by simp
next
  case s: (Cons a t)
  show ?thesis
  proof (cases t)
    case Nil
    with s assms(1) have "is_digit a"
      by (simp add: day_field_def split: if_splits)
    with colon_not_digit have "a \<noteq> CHR '':''" by auto
    with assms(2) s Nil show ?thesis by simp
  next
    case (Cons b u)
    from assms(1) have "(r = u \<and> a \<noteq> CHR '':'' \<and> (is_digit b \<or> b = CHR ''0'' \<or> b = CHR ''1'')) \<or> (r = b # u \<and> is_digit a)"
      unfolding s Cons day_field_def by (simp split: if_splits) auto
    moreover have "b \<noteq> CHR '':''" if "is_digit b \<or> b = CHR ''0'' \<or> b = CHR ''1''"
      using that colon_not_digit by auto
    moreover have "a \<noteq> CHR '':''" if "is_digit a"
      using that colon_not_digit by auto
    ultimately show ?thesis using assms(2) unfolding s Cons by auto
  qed
qed

lemma year_field_colon:
  assumes "year_field s = Some (y, r)" and "CHR '':'' \<in> set s"
  shows "CHR '':'' \<in> set r"
proof -
  from assms(1) have "\<exists>a b c d. s = [a, b, c, d] @ r \<and> is_digit a \<and> is_digit b \<and> is_digit c \<and> is_digit d"
    unfolding year_field_def by (simp split: list.splits if_splits)
  then obtain a b c d where s: "s = [a, b, c, d] @ r" and dg: "is_digit a" "is_digit b" "is_digit c" "is_digit d"
    by (elim exE conjE)
  from dg colon_not_digit have "a \<noteq> CHR '':''" "b \<noteq> CHR '':''" "c \<noteq> CHR '':''" "d \<noteq> CHR '':''"
    by auto
  with assms(2) show ?thesis unfolding s by simp
qed

lemma weekday_names_no_colon: "\<forall>n \<in> set (map fst a_weekday). CHR '':'' \<notin> set n"
  by (simp add: a_weekday_def)

lemma month_names_no_colon: "\<forall>n \<in> set (map fst a_month). CHR '':'' \<notin> set n"
  by (simp add: a_month_def)

lemma match_format_colon:
  assumes "match_format s = Some (v, r)" and c0: "CHR '':'' \<in> set s"
  shows "CHR '':'' \<in> set r"
proof -
  from assms(1) obtain wd s1 where m1: "match_names a_weekday s = Some (wd, s1)"
    unfolding match_format_def by (cases "match_names a_weekday s") auto
  from assms(1) m1 obtain s2 where m2: "match_ci '','' s1 = Some s2"
    unfolding match_format_def by (cases "match_ci '','' s1") auto
  from assms(1) m1 m2 obtain s3 where m3: "spaces1 s2 = Some s3"
    unfolding match_format_def by (cases "spaces1 s2") auto
  from assms(1) m1 m2 m3 obtain mo s4 where m4: "match_names a_month s3 = Some (mo, s4)"
    unfolding match_format_def by (cases "match_names a_month s3") auto
  from assms(1) m1 m2 m3 m4 obtain s5 where m5: "spaces1 s4 = Some s5"
    unfolding match_format_def by (cases "spaces1 s4") auto
  from assms(1) m1 m2 m3 m4 m5 obtain d s6 where m6: "day_field s5 = Some (d, s6)"
    unfolding match_format_def by (cases "day_field s5") auto
  from assms(1) m1 m2 m3 m4 m5 m6 obtain s7 where m7: "match_ci '','' s6 = Some s7"
    unfolding match_format_def by (cases "match_ci '','' s6") auto
  from assms(1) m1 m2 m3 m4 m5 m6 m7 obtain s8 where m8: "spaces1 s7 = Some s8"
    unfolding match_format_def by (cases "spaces1 s7") auto
  from assms(1) m1 m2 m3 m4 m5 m6 m7 m8 obtain y where m9: "year_field s8 = Some (y, r)"
    unfolding match_format_def by (cases "year_field s8") auto
  have comma: "CHR '':'' \<notin> set '',''" by simp
  from match_names_colon [OF m1 weekday_names_no_colon c0] have c1: "CHR '':'' \<in> set s1" .
  from match_ci_colon [OF m2 comma c1] have c2: "CHR '':'' \<in> set s2" .
  from spaces1_colon [OF m3 c2] have c3: "CHR '':'' \<in> set s3" .
  from match_names_colon [OF m4 month_names_no_colon c3] have c4: "CHR '':'' \<in> set s4" .
  from spaces1_colon [OF m5 c4] have c5: "CHR '':'' \<in> set s5" .
  from day_field_colon [OF m6 c5] have c6: "CHR '':'' \<in> set s6" .
  from match_ci_colon [OF m7 comma c6] have c7: "CHR '':'' \<in> set s7" .
  from spaces1_colon [OF m8 c7] have c8: "CHR '':'' \<in> set s8" .
  from year_field_colon [OF m9 c8] show ?thesis .
qed

lemma header_no_colon:
  assumes "convert_to_datetime s = Some d"
  shows "CHR '':'' \<notin> set s"
proof
  assume c: "CHR '':'' \<in> set s"
  from assms obtain v r where m: "match_format s = Some (v, r)"
    unfolding convert_to_datetime_def strptime_def by (cases "match_format s") auto
  from assms m have "r = []"
    unfolding convert_to_datetime_def strptime_def by (simp split: prod.splits if_splits)
  with match_format_colon [OF m c] show False by simp
qed

lemma time_at_colon: "time_at prev s = Some t \<Longrightarrow> CHR '':'' \<in> set s"
  unfolding time_at_def by (simp split: list.splits if_splits)

lemma search_time_colon: "search_time prev s = Some t \<Longrightarrow> CHR '':'' \<in> set s"
proof (induction s arbitrary: prev)
  case Nil
  then show ?case by simp
next
  case (Cons c cs)
  show ?case
  proof (cases "time_at prev (c # cs)")
    case None
    with Cons.prems have "search_time (Some c) cs = Some t" by simp
    from Cons.IH [OF this] show ?thesis by simp
  next
    case (Some u)
    then show ?thesis by (rule time_at_colon)
  qed
qed

lemma header_not_weight:
  assumes "convert_to_datetime s = Some d"
  shows "parse_weight_entry s = Inr None"
proof -
  have "search_time None s = None"
  proof (cases "search_time None s")
    case None
    then show ?thesis .
  next
    case (Some t)
    from search_time_colon [OF this] header_no_colon [OF assms] show ?thesis by simp
  qed
  then show ?thesis by (simp add: parse_weight_entry_def)
qed

section \<open>One turn of the loop, and the loop\<close>

lemma replace_hm_fields:
  assumes "replace_hm d h m = Inr d'"
  shows "d' = d\<lparr>hour := h, minute := m\<rparr>" and "h \<le> 23" and "m \<le> 59"
  using assms by (simp_all add: replace_hm_def split: if_splits)

lemma header_midnight:
  assumes "convert_to_datetime s = Some d"
  shows "hour d = 0 \<and> minute d = 0 \<and> second d = 0 \<and> microsecond d = 0"
proof -
  from assms have "strptime s = Inr d"
    unfolding convert_to_datetime_def by (cases "strptime s") (simp_all split: error.splits)
  then show ?thesis
    unfolding strptime_def by (auto split: option.splits prod.splits if_splits)
qed

lemma at_midnight_date_of:
  assumes "second d = 0" and "microsecond d = 0"
  shows "at_midnight (date_of d) = d\<lparr>hour := 0, minute := 0\<rparr>"
  using assms by (cases d) (simp add: at_midnight_def date_of_def)

lemma process_line_header:
  assumes "convert_to_datetime (strip_newlines raw) = Some d"
  shows "process_line st raw = Inr (st\<lparr>current_date := d\<rparr>)"
  using assms header_not_weight [OF assms] by (simp add: process_line_def)

lemma process_line_plain:
  assumes "convert_to_datetime (strip_newlines raw) = None"
    and "parse_weight_entry (strip_newlines raw) = Inr None"
  shows "process_line st raw = Inr st"
  using assms by (simp add: process_line_def)

lemma process_line_weight:
  assumes "convert_to_datetime (strip_newlines raw) = None"
    and "parse_weight_entry (strip_newlines raw) = Inr (Some (t, v))"
    and "process_line st raw = Inr st'"
  shows "\<exists>h m. hours_minutes t = Inr (h, m) \<and> h \<le> 23 \<and> m \<le> 59 \<and>
           st' = \<lparr>current_date = (current_date st)\<lparr>hour := h, minute := m\<rparr>,
                  weight_data = (weight_data st)((current_date st)\<lparr>hour := h, minute := m\<rparr> \<mapsto> v)\<rparr>"
proof (cases "hours_minutes t")
  case (Inl e)
  with assms show ?thesis by (simp add: process_line_def)
next
  case (Inr hm)
  obtain h m where hm: "hm = (h, m)" by (cases hm)
  show ?thesis
  proof (cases "replace_hm (current_date st) h m")
    case (Inl e)
    with assms Inr hm show ?thesis by (simp add: process_line_def)
  next
    case r: (Inr cd)
    from replace_hm_fields [OF r] assms Inr hm r show ?thesis
      by (simp add: process_line_def)
  qed
qed

lemma process_line_step:
  assumes ok: "process_line st raw = Inr st'"
    and s0: "second (current_date st) = 0" and u0: "microsecond (current_date st) = 0"
  shows "date_of (current_date st') = header_step (date_of (current_date st)) raw"
    and "second (current_date st') = 0" and "microsecond (current_date st') = 0"
    and "weight_data st' =
           (case line_obs (date_of (current_date st)) raw of
              None \<Rightarrow> weight_data st | Some (k, v) \<Rightarrow> (weight_data st)(k \<mapsto> v))"
proof -
  let ?G = "date_of (current_date st') = header_step (date_of (current_date st)) raw
    \<and> second (current_date st') = 0 \<and> microsecond (current_date st') = 0
    \<and> weight_data st' =
           (case line_obs (date_of (current_date st)) raw of
              None \<Rightarrow> weight_data st | Some (k, v) \<Rightarrow> (weight_data st)(k \<mapsto> v))"
  have ?G
  proof (cases "convert_to_datetime (strip_newlines raw)")
    case (Some d)
    from process_line_header [OF Some] ok have st': "st' = st\<lparr>current_date := d\<rparr>" by simp
    from header_not_weight [OF Some] have "line_obs (date_of (current_date st)) raw = None"
      by (simp add: line_obs_def)
    with st' header_midnight [OF Some] Some show ?thesis
      by (simp add: header_step_def)
  next
    case None
    show ?thesis
    proof (cases "parse_weight_entry (strip_newlines raw)")
      case (Inl e)
      with ok show ?thesis by (simp add: process_line_def)
    next
      case (Inr x)
      show ?thesis
      proof (cases x)
        case n: None
        from process_line_plain [OF None] Inr n ok have "st' = st" by simp
        with None Inr n s0 u0 show ?thesis
          by (simp add: header_step_def line_obs_def)
      next
        case (Some tv)
        obtain t v where tv: "tv = (t, v)" by (cases tv)
        from Inr Some tv have p: "parse_weight_entry (strip_newlines raw) = Inr (Some (t, v))" by simp
        from process_line_weight [OF None p ok] obtain h m where
          hm: "hours_minutes t = Inr (h, m)" and h: "h \<le> 23" and m: "m \<le> 59" and
          st': "st' = \<lparr>current_date = (current_date st)\<lparr>hour := h, minute := m\<rparr>,
                  weight_data = (weight_data st)((current_date st)\<lparr>hour := h, minute := m\<rparr> \<mapsto> v)\<rparr>"
          by (elim exE conjE)
        have "replace_hm (at_midnight (date_of (current_date st))) h m
                = Inr ((current_date st)\<lparr>hour := h, minute := m\<rparr>)"
          using h m by (simp add: at_midnight_date_of [OF s0 u0] replace_hm_def)
        then have lo: "line_obs (date_of (current_date st)) raw
                = Some ((current_date st)\<lparr>hour := h, minute := m\<rparr>, v)"
          using p hm by (simp add: line_obs_def)
        show ?thesis using st' lo None s0 u0
          by (simp add: header_step_def date_of_def)
      qed
    qed
  qed
  then show "date_of (current_date st') = header_step (date_of (current_date st)) raw"
    and "second (current_date st') = 0" and "microsecond (current_date st') = 0"
    and "weight_data st' =
           (case line_obs (date_of (current_date st)) raw of
              None \<Rightarrow> weight_data st | Some (k, v) \<Rightarrow> (weight_data st)(k \<mapsto> v))"
    by simp_all
qed

lemma process_lines_snoc:
  "process_lines st (xs @ [l]) =
     (case process_lines st xs of Inl e \<Rightarrow> Inl e | Inr st' \<Rightarrow> process_line st' l)"
proof (induction xs arbitrary: st)
  case Nil
  then show ?case by (simp split: sum.splits)
next
  case (Cons x xs)
  then show ?case by (simp split: sum.splits)
qed

lemma process_lines_date:
  assumes "process_lines st ls = Inr st'"
    and "second (current_date st) = 0" and "microsecond (current_date st) = 0"
  shows "date_of (current_date st') = foldl header_step (date_of (current_date st)) ls
         \<and> second (current_date st') = 0 \<and> microsecond (current_date st') = 0"
  using assms
proof (induction ls arbitrary: st)
  case Nil
  then show ?case by simp
next
  case (Cons l ls)
  from Cons.prems(1) obtain st1 where l: "process_line st l = Inr st1" and r: "process_lines st1 ls = Inr st'"
    by (cases "process_line st l") simp_all
  from process_line_step [OF l Cons.prems(2,3)] Cons.IH [OF r] show ?case by simp
qed

section \<open>The mapping the loop builds\<close>

lemma init_state_fields:
  "second (current_date init_state) = 0" "microsecond (current_date init_state) = 0"
  "date_of (current_date init_state) = date_of datetime_min" "weight_data init_state = Map.empty"
  by (simp_all add: init_state_def datetime_min_def)

lemma resolves_to_snoc_old: "n < length pre \<Longrightarrow> resolves_to (pre @ [l]) n = resolves_to pre n"
  by (simp add: resolves_to_def nth_append)

lemma resolves_to_snoc_new: "resolves_to (pre @ [l]) (length pre) = line_obs (date_before pre) l"
  by (simp add: resolves_to_def)

lemma last_write_Nil: "\<not> last_write [] k v"
  by (simp add: last_write_def)

lemma last_write_snoc_hit:
  assumes "line_obs (date_before pre) l = Some (k, v')"
  shows "last_write (pre @ [l]) k v \<longleftrightarrow> v = v'"
proof
  assume "last_write (pre @ [l]) k v"
  then obtain j where j: "j < length (pre @ [l])" "resolves_to (pre @ [l]) j = Some (k, v)"
    and later: "\<forall>n. j < n \<and> n < length (pre @ [l]) \<longrightarrow> (\<forall>v'. resolves_to (pre @ [l]) n \<noteq> Some (k, v'))"
    unfolding last_write_def by (elim exE conjE)
  show "v = v'"
  proof (cases "j = length pre")
    case True
    with j(2) assms show ?thesis by (simp add: resolves_to_snoc_new)
  next
    case False
    with j(1) have "j < length pre" "length pre < length (pre @ [l])" by simp_all
    with later have "resolves_to (pre @ [l]) (length pre) \<noteq> Some (k, v')" by blast
    with assms show ?thesis by (simp add: resolves_to_snoc_new)
  qed
next
  assume "v = v'"
  with assms have "resolves_to (pre @ [l]) (length pre) = Some (k, v)"
    by (simp add: resolves_to_snoc_new)
  moreover have "length pre < length (pre @ [l])" by simp
  moreover have "\<forall>n. length pre < n \<and> n < length (pre @ [l]) \<longrightarrow> (\<forall>v'. resolves_to (pre @ [l]) n \<noteq> Some (k, v'))"
    by auto
  ultimately show "last_write (pre @ [l]) k v"
    unfolding last_write_def by blast
qed

lemma last_write_snoc_miss:
  assumes "\<forall>v'. line_obs (date_before pre) l \<noteq> Some (k, v')"
  shows "last_write (pre @ [l]) k v \<longleftrightarrow> last_write pre k v"
proof
  assume "last_write (pre @ [l]) k v"
  then obtain j where j: "j < length (pre @ [l])" "resolves_to (pre @ [l]) j = Some (k, v)"
    and later: "\<forall>n. j < n \<and> n < length (pre @ [l]) \<longrightarrow> (\<forall>v'. resolves_to (pre @ [l]) n \<noteq> Some (k, v'))"
    unfolding last_write_def by (elim exE conjE)
  have "j \<noteq> length pre"
    using j(2) assms by (auto simp: resolves_to_snoc_new)
  with j(1) have jl: "j < length pre" by simp
  with j(2) have r: "resolves_to pre j = Some (k, v)" by (simp add: resolves_to_snoc_old)
  have "\<forall>n. j < n \<and> n < length pre \<longrightarrow> (\<forall>v'. resolves_to pre n \<noteq> Some (k, v'))"
  proof (intro allI impI)
    fix n v' assume n: "j < n \<and> n < length pre"
    then have "j < n \<and> n < length (pre @ [l])" by simp
    with later have "resolves_to (pre @ [l]) n \<noteq> Some (k, v')" by blast
    with n show "resolves_to pre n \<noteq> Some (k, v')" by (simp add: resolves_to_snoc_old)
  qed
  with jl r show "last_write pre k v" unfolding last_write_def by blast
next
  assume "last_write pre k v"
  then obtain j where j: "j < length pre" "resolves_to pre j = Some (k, v)"
    and later: "\<forall>n. j < n \<and> n < length pre \<longrightarrow> (\<forall>v'. resolves_to pre n \<noteq> Some (k, v'))"
    unfolding last_write_def by (elim exE conjE)
  from j have r: "resolves_to (pre @ [l]) j = Some (k, v)" by (simp add: resolves_to_snoc_old)
  have "\<forall>n. j < n \<and> n < length (pre @ [l]) \<longrightarrow> (\<forall>v'. resolves_to (pre @ [l]) n \<noteq> Some (k, v'))"
  proof (intro allI impI)
    fix n v' assume n: "j < n \<and> n < length (pre @ [l])"
    show "resolves_to (pre @ [l]) n \<noteq> Some (k, v')"
    proof (cases "n = length pre")
      case True
      with assms show ?thesis by (simp add: resolves_to_snoc_new)
    next
      case False
      with n have "j < n \<and> n < length pre" by simp
      with later show ?thesis by (simp add: resolves_to_snoc_old)
    qed
  qed
  moreover from j(1) have "j < length (pre @ [l])" by simp
  ultimately show "last_write (pre @ [l]) k v" using r unfolding last_write_def by blast
qed

lemma process_lines_last_write:
  "process_lines init_state raw = Inr st \<Longrightarrow> weight_data st k = Some v \<longleftrightarrow> last_write raw k v"
proof (induction raw arbitrary: st rule: rev_induct)
  case Nil
  then show ?case by (simp add: init_state_fields last_write_Nil)
next
  case (snoc l pre)
  from snoc.prems obtain st1 where pre: "process_lines init_state pre = Inr st1"
    and l: "process_line st1 l = Inr st"
    unfolding process_lines_snoc by (cases "process_lines init_state pre") simp_all
  from process_lines_date [OF pre init_state_fields(1,2)]
  have d: "date_of (current_date st1) = date_before pre"
    and s0: "second (current_date st1) = 0" and u0: "microsecond (current_date st1) = 0"
    by (simp_all add: date_before_def init_state_fields)
  from process_line_step(4) [OF l s0 u0] d
  have w: "weight_data st =
           (case line_obs (date_before pre) l of
              None \<Rightarrow> weight_data st1 | Some (k, v) \<Rightarrow> (weight_data st1)(k \<mapsto> v))"
    by simp
  show ?case
  proof (cases "\<exists>v'. line_obs (date_before pre) l = Some (k, v')")
    case True
    then obtain v' where hit: "line_obs (date_before pre) l = Some (k, v')" ..
    with w have "weight_data st k = Some v'" by simp
    with last_write_snoc_hit [OF hit] show ?thesis by auto
  next
    case False
    then have miss: "\<forall>v'. line_obs (date_before pre) l \<noteq> Some (k, v')" by simp
    with w have "weight_data st k = weight_data st1 k"
      by (cases "line_obs (date_before pre) l") auto
    with last_write_snoc_miss [OF miss] snoc.IH [OF pre] show ?thesis by simp
  qed
qed



section \<open>The time of a weight line\<close>

lemma digit_not_colon: "is_digit c \<Longrightarrow> c \<noteq> CHR '':''"
  using colon_not_digit by auto

lemma time_at_shape:
  assumes "time_at prev s = Some t"
  shows "\<exists>a b d e. t = [a, b, CHR '':'', d, e] \<and> is_digit a \<and> is_digit b \<and> is_digit d \<and> is_digit e"
  using assms unfolding time_at_def by (auto split: list.splits if_splits)

lemma search_time_shape:
  "search_time prev s = Some t \<Longrightarrow>
   \<exists>a b d e. t = [a, b, CHR '':'', d, e] \<and> is_digit a \<and> is_digit b \<and> is_digit d \<and> is_digit e"
proof (induction s arbitrary: prev)
  case Nil
  then show ?case by simp
next
  case (Cons c cs)
  show ?case
  proof (cases "time_at prev (c # cs)")
    case None
    with Cons.prems have "search_time (Some c) cs = Some t" by simp
    then show ?thesis by (rule Cons.IH)
  next
    case (Some u)
    with Cons.prems have "u = t" by simp
    with Some show ?thesis using time_at_shape by simp
  qed
qed

lemma hours_minutes_digits:
  assumes "is_digit a" "is_digit b" "is_digit d" "is_digit e"
  shows "hours_minutes [a, b, CHR '':'', d, e] = Inr (dec_val [a, b], dec_val [d, e])"
  using assms digit_not_colon [of a] digit_not_colon [of b] digit_not_colon [of d] digit_not_colon [of e]
  by (simp add: hours_minutes_def int_of_str_def)

lemma search_time_hours_minutes:
  assumes "search_time prev s = Some t"
  shows "hours_minutes t = Inr (dec_val (take 2 t), dec_val (drop 3 t))"
proof -
  from search_time_shape [OF assms] obtain a b d e where
    t: "t = [a, b, CHR '':'', d, e]" and dg: "is_digit a" "is_digit b" "is_digit d" "is_digit e"
    by (elim exE conjE)
  from hours_minutes_digits [OF dg] show ?thesis unfolding t by simp
qed

lemma search_time_not_header:
  assumes "search_time None s = Some t"
  shows "convert_to_datetime s = None"
proof (cases "convert_to_datetime s")
  case None
  then show ?thesis .
next
  case (Some d)
  from header_no_colon [OF Some] search_time_colon [OF assms] show ?thesis by simp
qed

section \<open>Evaluation and the example file\<close>

lemmas eval_defs =
  code_def is_digit_def is_space_def is_word_def is_alpha_ascii_def lower_def digit_val_def
  dec_val_def strip_newlines_def int_of_str_def float_of_str_def datetime_min_def date_of_def
  is_leap_def days_in_month_def valid_date_def replace_hm_def a_weekday_def a_month_def
  spaces1_def day_field_def year_field_def match_format_def strptime_def
  convert_to_datetime_def opt_word_def word_boundary_def time_at_def is_numchar_def
  weight_at_def parse_weight_entry_def hours_minutes_def init_state_def process_line_def
  print_line_def not_found_msg_def could_not_read_msg_def process_file_def

lemma example_header:
  "convert_to_datetime (strip_newlines (example_lines ! 0))
     = Some \<lparr>year = 2024, month = 11, day = 6, hour = 0, minute = 0, second = 0, microsecond = 0\<rparr>"
  by (simp add: example_lines_def eval_defs)

lemma example_weight_1:
  "parse_weight_entry (strip_newlines (example_lines ! 1)) = Inr (Some (''06:00'', 141 / 2))"
  by (simp add: example_lines_def eval_defs)

lemma example_weight_2:
  "parse_weight_entry (strip_newlines (example_lines ! 2)) = Inr (Some (''06:00'', 71))"
  by (simp add: example_lines_def eval_defs)

lemma example_loop:
  "process_lines init_state example_lines
     = Inr \<lparr>current_date = example_key, weight_data = [example_key \<mapsto> 71]\<rparr>"
  by (simp add: example_lines_def example_key_def eval_defs)

lemma example_run:
  "process_file (example_world e) ''log/[PiyoLog]Nov.txt''
     = (Inr [example_key \<mapsto> 71],
        case e of Eof \<Rightarrow> example_world e
        | ReadError \<Rightarrow> print_line (could_not_read_msg ''log/[PiyoLog]Nov.txt'') (example_world e))"
  by (cases e) (simp_all add: process_file_def example_world_def example_loop)

lemma process_file_readable:
  assumes "files w file_name = Some (Readable raw e)" and "process_file w file_name = (Inr m, w')"
  shows "\<exists>st. process_lines init_state raw = Inr st \<and> m = weight_data st"
  using assms by (cases "process_lines init_state raw"; cases e) (simp_all add: process_file_def)

lemma example_resolves_1: "resolves_to example_lines 1 = Some (example_key, 141 / 2)"
  by (simp add: resolves_to_def line_obs_def date_before_def header_step_def at_midnight_def
      example_lines_def example_key_def eval_defs)

lemma example_resolves_2: "resolves_to example_lines 2 = Some (example_key, 71)"
  by (simp add: resolves_to_def line_obs_def date_before_def header_step_def at_midnight_def
      example_lines_def example_key_def eval_defs)

section \<open>Lines that are not headers, the world after a call, weekday tokens\<close>

lemma foldl_header_step_no_header:
  assumes "\<forall>l \<in> set ls. convert_to_datetime (strip_newlines l) = None"
  shows "foldl header_step ymd ls = ymd"
  using assms by (induction ls arbitrary: ymd) (simp_all add: header_step_def)

lemma process_lines_plain:
  assumes "\<forall>l \<in> set ls. convert_to_datetime (strip_newlines l) = None"
    and "\<forall>l \<in> set ls. parse_weight_entry (strip_newlines l) = Inr None"
  shows "process_lines st ls = Inr st"
  using assms by (induction ls) (simp_all add: process_line_plain)



lemma match_ci_lower: "match_ci (map lower a) (a @ r) = Some r"
  by (induction a) simp_all

lemma match_ci_rest: "match_ci p s = Some r \<Longrightarrow> r = drop (length p) s"
proof (induction p s rule: match_ci.induct)
  case (1 s)
  then show ?case by simp
next
  case (2 p ps)
  then show ?case by simp
next
  case (3 p ps c cs)
  from "3.prems" have c: "lower c = p" by (simp split: if_splits)
  from "3.prems" have m: "match_ci ps cs = Some r" by (simp split: if_splits)
  from "3.IH" [OF c m] show ?case by simp
qed

lemma match_names_token:
  assumes "map lower a \<in> fst ` set tab" and "\<forall>n \<in> fst ` set tab. length n = length a"
  shows "\<exists>i. match_names tab (a @ r) = Some (i, r)"
  using assms
proof (induction tab)
  case Nil
  then show ?case by simp
next
  case (Cons x tab)
  obtain n j where x: "x = (n, j)" by (cases x)
  show ?case
  proof (cases "match_ci n (a @ r)")
    case (Some r')
    from Cons.prems(2) x have "length n = length a" by simp
    with match_ci_rest [OF Some] have "r' = r" by simp
    with Some x show ?thesis by simp
  next
    case None
    have "map lower a \<noteq> n"
    proof
      assume "map lower a = n"
      with match_ci_lower [of a r] None show False by simp
    qed
    with Cons.prems(1) x have "map lower a \<in> fst ` set tab" by auto
    moreover from Cons.prems(2) have "\<forall>n \<in> fst ` set tab. length n = length a" by simp
    ultimately have "\<exists>i. match_names tab (a @ r) = Some (i, r)" by (rule Cons.IH)
    with None x show ?thesis by simp
  qed
qed

lemma weekday_token_length:
  assumes "map lower a \<in> fst ` set a_weekday"
  shows "\<forall>n \<in> fst ` set a_weekday. length n = length a"
proof -
  from assms have "length (map lower a) = 3" by (auto simp: a_weekday_def)
  then have "length a = 3" by simp
  then show ?thesis by (simp add: a_weekday_def)
qed

lemma strptime_weekday_token:
  assumes "map lower a \<in> fst ` set a_weekday" and "map lower b \<in> fst ` set a_weekday"
  shows "strptime (a @ rest) = strptime (b @ rest)"
proof -
  from match_names_token [OF assms(1) weekday_token_length [OF assms(1)]]
  obtain i where i: "match_names a_weekday (a @ rest) = Some (i, rest)" ..
  from match_names_token [OF assms(2) weekday_token_length [OF assms(2)]]
  obtain j where j: "match_names a_weekday (b @ rest) = Some (j, rest)" ..
  show ?thesis
    unfolding strptime_def match_format_def i j
    by (simp split: option.splits prod.splits)
qed

section \<open>The properties\<close>

text \<open>
  C1, as the program has it. Take a line that contains \<open>Weight\<close>. When the leftmost
  match of the time pattern is a time of day (hour at most 23, minute at most 59) and the
  leftmost match of the weight pattern holds a numeral that \<open>float\<close> accepts, the turn
  of the loop records the observation: the current date with that hour and minute, mapped
  to the weight. When one of the two searches finds nothing, the turn raises nothing
  and leaves the mapping as it was.
\<close>

theorem weight_line_recorded:
  "(contains ''Weight'' (strip_newlines raw)
      \<and> search_time None (strip_newlines raw) = Some t
      \<and> dec_val (take 2 t) \<le> 23 \<and> dec_val (drop 3 t) \<le> 59
      \<and> search_weight (strip_newlines raw) = Some g \<and> float_of_str g = Inr v
    \<longrightarrow> process_line st raw =
          Inr \<lparr>current_date = (current_date st)\<lparr>hour := dec_val (take 2 t), minute := dec_val (drop 3 t)\<rparr>,
               weight_data = (weight_data st)
                 ((current_date st)\<lparr>hour := dec_val (take 2 t), minute := dec_val (drop 3 t)\<rparr> \<mapsto> v)\<rparr>)
   \<and> (contains ''Weight'' (strip_newlines raw)
      \<and> (search_time None (strip_newlines raw) = None \<or> search_weight (strip_newlines raw) = None)
    \<longrightarrow> (\<exists>st'. process_line st raw = Inr st' \<and> weight_data st' = weight_data st))"
proof (intro conjI impI)
  assume a: "contains ''Weight'' (strip_newlines raw)
      \<and> search_time None (strip_newlines raw) = Some t
      \<and> dec_val (take 2 t) \<le> 23 \<and> dec_val (drop 3 t) \<le> 59
      \<and> search_weight (strip_newlines raw) = Some g \<and> float_of_str g = Inr v"
  then have tm: "search_time None (strip_newlines raw) = Some t" by simp
  from a have p: "parse_weight_entry (strip_newlines raw) = Inr (Some (t, v))"
    by (simp add: parse_weight_entry_def)
  from search_time_not_header [OF tm] have nh: "convert_to_datetime (strip_newlines raw) = None" .
  from search_time_hours_minutes [OF tm]
  have hm: "hours_minutes t = Inr (dec_val (take 2 t), dec_val (drop 3 t))" .
  from a have "replace_hm (current_date st) (dec_val (take 2 t)) (dec_val (drop 3 t))
      = Inr ((current_date st)\<lparr>hour := dec_val (take 2 t), minute := dec_val (drop 3 t)\<rparr>)"
    by (simp add: replace_hm_def)
  with p nh hm show "process_line st raw =
          Inr \<lparr>current_date = (current_date st)\<lparr>hour := dec_val (take 2 t), minute := dec_val (drop 3 t)\<rparr>,
               weight_data = (weight_data st)
                 ((current_date st)\<lparr>hour := dec_val (take 2 t), minute := dec_val (drop 3 t)\<rparr> \<mapsto> v)\<rparr>"
    by (simp add: process_line_def)
next
  assume a: "contains ''Weight'' (strip_newlines raw)
      \<and> (search_time None (strip_newlines raw) = None \<or> search_weight (strip_newlines raw) = None)"
  then have p: "parse_weight_entry (strip_newlines raw) = Inr None"
    by (auto simp: parse_weight_entry_def split: option.splits)
  show "\<exists>st'. process_line st raw = Inr st' \<and> weight_data st' = weight_data st"
  proof (cases "convert_to_datetime (strip_newlines raw)")
    case None
    with p show ?thesis by (simp add: process_line_def)
  next
    case (Some d)
    with p show ?thesis by (simp add: process_line_def)
  qed
qed

theorem weight_line_recorded_witness:
  "(contains ''Weight'' (strip_newlines (''06:00 Weight 70.5kg'' @ [CHR 0x0A]))
      \<and> search_time None (strip_newlines (''06:00 Weight 70.5kg'' @ [CHR 0x0A])) = Some ''06:00''
      \<and> dec_val (take 2 ''06:00'') \<le> 23 \<and> dec_val (drop 3 ''06:00'') \<le> 59
      \<and> search_weight (strip_newlines (''06:00 Weight 70.5kg'' @ [CHR 0x0A])) = Some ''70.5''
      \<and> float_of_str ''70.5'' = Inr (141 / 2)
      \<and> process_line init_state (''06:00 Weight 70.5kg'' @ [CHR 0x0A]) =
          Inr \<lparr>current_date = datetime_min\<lparr>hour := 6, minute := 0\<rparr>,
               weight_data = [datetime_min\<lparr>hour := 6, minute := 0\<rparr> \<mapsto> 141 / 2]\<rparr>)
   \<and> (contains ''Weight'' (strip_newlines (''Weight 70.5kg'' @ [CHR 0x0A]))
      \<and> search_time None (strip_newlines (''Weight 70.5kg'' @ [CHR 0x0A])) = None
      \<and> (\<exists>st'. process_line init_state (''Weight 70.5kg'' @ [CHR 0x0A]) = Inr st'
                \<and> weight_data st' = weight_data init_state))"
proof -
  have h1: "contains ''Weight'' (strip_newlines (''06:00 Weight 70.5kg'' @ [CHR 0x0A]))
      \<and> search_time None (strip_newlines (''06:00 Weight 70.5kg'' @ [CHR 0x0A])) = Some ''06:00''
      \<and> dec_val (take 2 ''06:00'') \<le> 23 \<and> dec_val (drop 3 ''06:00'') \<le> 59
      \<and> search_weight (strip_newlines (''06:00 Weight 70.5kg'' @ [CHR 0x0A])) = Some ''70.5''
      \<and> float_of_str ''70.5'' = Inr (141 / 2)"
    by (simp add: eval_defs)
  have h2: "contains ''Weight'' (strip_newlines (''Weight 70.5kg'' @ [CHR 0x0A]))
      \<and> search_time None (strip_newlines (''Weight 70.5kg'' @ [CHR 0x0A])) = None"
    by (simp add: eval_defs)
  have v: "dec_val (take 2 ''06:00'') = 6" "dec_val (drop 3 ''06:00'') = 0"
    by (simp_all add: eval_defs)
  from weight_line_recorded [of "''06:00 Weight 70.5kg'' @ [CHR 0x0A]" "''06:00''" "''70.5''" "141 / 2" init_state] h1
  have r1: "process_line init_state (''06:00 Weight 70.5kg'' @ [CHR 0x0A]) =
          Inr \<lparr>current_date = datetime_min\<lparr>hour := 6, minute := 0\<rparr>,
               weight_data = [datetime_min\<lparr>hour := 6, minute := 0\<rparr> \<mapsto> 141 / 2]\<rparr>"
    unfolding v by (simp add: init_state_def)
  from weight_line_recorded [of "''Weight 70.5kg'' @ [CHR 0x0A]" t g v init_state] h2
  have r2: "\<exists>st'. process_line init_state (''Weight 70.5kg'' @ [CHR 0x0A]) = Inr st'
                \<and> weight_data st' = weight_data init_state"
    by blast
  from h1 h2 r1 r2 show ?thesis by blast
qed

text \<open>
  C1 as stated fails on the line \<open>99:99 06:00 Weight 70.5kg\<close>: it contains \<open>Weight\<close>,
  it has the time token \<open>06:00\<close> and the weight token \<open>Weight 70.5kg\<close>, and the turn of
  the loop raises \<open>ValueError\<close> instead of recording an observation, because the search
  takes the leftmost match \<open>99:99\<close>.
\<close>

theorem weight_line_recorded_counterexample:
  "contains ''Weight'' ''99:99 06:00 Weight 70.5kg''
   \<and> time_at (Some (CHR '' '')) ''06:00 Weight 70.5kg'' = Some ''06:00''
   \<and> weight_at ''Weight 70.5kg'' = Some ''70.5''
   \<and> float_of_str ''70.5'' = Inr (141 / 2)
   \<and> process_line init_state ''99:99 06:00 Weight 70.5kg'' = Inl ValueError
   \<and> fst (process_file
        \<lparr>files = [''log/[PiyoLog]Nov.txt'' \<mapsto> Readable [''99:99 06:00 Weight 70.5kg''] Eof], stdout = []\<rparr>
        ''log/[PiyoLog]Nov.txt'') = Inl ValueError"
  by (simp add: eval_defs)



text \<open>
  C3. Last write wins: when two weight lines resolve to the same timestamp and no later
  line resolves to it, the mapping holds the weight of the later of the two. The three
  lines of Example 2 give exactly the mapping from 2024-11-06 06:00 to 71.0.
\<close>

theorem last_write_wins:
  "(files w file_name = Some (Readable raw e) \<and> process_file w file_name = (Inr m, w')
      \<and> i < j \<and> j < length raw
      \<and> resolves_to raw i = Some (k, v1) \<and> resolves_to raw j = Some (k, v2)
      \<and> (\<forall>n. j < n \<and> n < length raw \<longrightarrow> (\<forall>v3. resolves_to raw n \<noteq> Some (k, v3)))
    \<longrightarrow> m k = Some v2)
   \<and> (files w file_name = Some (Readable example_lines Eof)
    \<longrightarrow> process_file w file_name = (Inr [example_key \<mapsto> 71], w))"
proof (intro conjI impI)
  assume a: "files w file_name = Some (Readable raw e) \<and> process_file w file_name = (Inr m, w')
      \<and> i < j \<and> j < length raw
      \<and> resolves_to raw i = Some (k, v1) \<and> resolves_to raw j = Some (k, v2)
      \<and> (\<forall>n. j < n \<and> n < length raw \<longrightarrow> (\<forall>v3. resolves_to raw n \<noteq> Some (k, v3)))"
  then have f: "files w file_name = Some (Readable raw e)"
    and r: "process_file w file_name = (Inr m, w')" by simp_all
  from process_file_readable [OF f r] obtain st where
    run: "process_lines init_state raw = Inr st" and m: "m = weight_data st"
    by (elim exE conjE)
  from a have "last_write raw k v2" unfolding last_write_def by blast
  with process_lines_last_write [OF run] m show "m k = Some v2" by simp
next
  assume "files w file_name = Some (Readable example_lines Eof)"
  then show "process_file w file_name = (Inr [example_key \<mapsto> 71], w)"
    by (simp add: process_file_def example_loop)
qed

theorem last_write_wins_witness:
  "files (example_world Eof) ''log/[PiyoLog]Nov.txt'' = Some (Readable example_lines Eof)
   \<and> process_file (example_world Eof) ''log/[PiyoLog]Nov.txt''
       = (Inr [example_key \<mapsto> 71], example_world Eof)
   \<and> (1 :: nat) < 2 \<and> 2 < length example_lines
   \<and> resolves_to example_lines 1 = Some (example_key, 141 / 2)
   \<and> resolves_to example_lines 2 = Some (example_key, 71)
   \<and> length example_lines = 3
   \<and> [example_key \<mapsto> (71 :: rat)] example_key = Some 71"
proof -
  have f: "files (example_world Eof) ''log/[PiyoLog]Nov.txt'' = Some (Readable example_lines Eof)"
    by (simp add: example_world_def)
  from last_write_wins [of "example_world Eof" "''log/[PiyoLog]Nov.txt''"] f
  have r: "process_file (example_world Eof) ''log/[PiyoLog]Nov.txt''
       = (Inr [example_key \<mapsto> 71], example_world Eof)"
    by blast
  have len: "length example_lines = 3" by (simp add: example_lines_def)
  have last: "\<forall>n. 2 < n \<and> n < length example_lines \<longrightarrow> (\<forall>v3. resolves_to example_lines n \<noteq> Some (example_key, v3))"
    unfolding len by auto
  have ij: "(1 :: nat) < 2" "2 < length example_lines" unfolding len by simp_all
  from last_write_wins [of "example_world Eof" "''log/[PiyoLog]Nov.txt''" example_lines Eof
      "[example_key \<mapsto> 71]" "example_world Eof" 1 2 example_key "141 / 2" 71]
    f r ij example_resolves_1 example_resolves_2 last len
  show ?thesis by simp
qed

text \<open>
  C4. The claim is that no line makes the loop raise. The line \<open>25:00 Weight 70.5kg\<close>
  does: both patterns match, and \<open>replace(hour=25)\<close> raises \<open>ValueError\<close>, which
  \<open>process_file\<close> does not catch. The line \<open>06:00 Weight 1.2.3kg\<close> does too, in
  \<open>float\<close>.
\<close>

theorem out_of_range_time_raises:
  "process_line init_state (''25:00 Weight 70.5kg'' @ [CHR 0x0A]) = Inl ValueError
   \<and> process_line init_state (''06:00 Weight 1.2.3kg'' @ [CHR 0x0A]) = Inl ValueError
   \<and> fst (process_file
        \<lparr>files = [''log/[PiyoLog]Nov.txt'' \<mapsto> Readable [''25:00 Weight 70.5kg'' @ [CHR 0x0A]] Eof],
         stdout = []\<rparr>
        ''log/[PiyoLog]Nov.txt'') = Inl ValueError"
  by (simp add: eval_defs)



text \<open>
  C6, as the program has it. A date header sets \<open>current_date\<close> to its date at
  midnight. Over the lines that follow and are not date headers, the date (year, month,
  day) of \<open>current_date\<close> stays that of the header, and its second and microsecond stay
  0; its hour and minute stay at midnight as long as none of those lines is a weight
  entry.
\<close>

theorem header_sets_date_and_date_persists:
  assumes "convert_to_datetime (strip_newlines hdr) = Some d"
    and "\<forall>l \<in> set ls. convert_to_datetime (strip_newlines l) = None"
    and "process_lines st (hdr # ls) = Inr st'"
  shows "process_line st hdr = Inr (st\<lparr>current_date := d\<rparr>)
         \<and> hour d = 0 \<and> minute d = 0 \<and> second d = 0 \<and> microsecond d = 0
         \<and> date_of (current_date st') = date_of d
         \<and> second (current_date st') = 0 \<and> microsecond (current_date st') = 0
         \<and> ((\<forall>l \<in> set ls. parse_weight_entry (strip_newlines l) = Inr None)
              \<longrightarrow> current_date st' = d)"
proof -
  from process_line_header [OF assms(1)]
  have h: "process_line st hdr = Inr (st\<lparr>current_date := d\<rparr>)" .
  from header_midnight [OF assms(1)]
  have z: "hour d = 0 \<and> minute d = 0 \<and> second d = 0 \<and> microsecond d = 0" .
  from assms(3) h have rest: "process_lines (st\<lparr>current_date := d\<rparr>) ls = Inr st'" by simp
  from z have s0: "second (current_date (st\<lparr>current_date := d\<rparr>)) = 0"
    and u0: "microsecond (current_date (st\<lparr>current_date := d\<rparr>)) = 0" by simp_all
  from process_lines_date [OF rest s0 u0] foldl_header_step_no_header [OF assms(2)]
  have p: "date_of (current_date st') = date_of d
         \<and> second (current_date st') = 0 \<and> microsecond (current_date st') = 0"
    by simp
  have q: "(\<forall>l \<in> set ls. parse_weight_entry (strip_newlines l) = Inr None) \<longrightarrow> current_date st' = d"
  proof
    assume "\<forall>l \<in> set ls. parse_weight_entry (strip_newlines l) = Inr None"
    from process_lines_plain [OF assms(2) this, of "st\<lparr>current_date := d\<rparr>"] rest
    have "st' = st\<lparr>current_date := d\<rparr>" by simp
    then show "current_date st' = d" by simp
  qed
  from h z p q show ?thesis by simp
qed

theorem header_sets_date_and_date_persists_witness:
  "convert_to_datetime (strip_newlines (''Wed, Nov 06, 2024'' @ [CHR 0x0A]))
     = Some \<lparr>year = 2024, month = 11, day = 6, hour = 0, minute = 0, second = 0, microsecond = 0\<rparr>
   \<and> convert_to_datetime (strip_newlines (''feeding'' @ [CHR 0x0A])) = None
   \<and> convert_to_datetime (strip_newlines (''06:00 Weight 70.5kg'' @ [CHR 0x0A])) = None
   \<and> process_lines init_state
        [''Wed, Nov 06, 2024'' @ [CHR 0x0A], ''feeding'' @ [CHR 0x0A], ''06:00 Weight 70.5kg'' @ [CHR 0x0A]]
        = Inr \<lparr>current_date = example_key, weight_data = [example_key \<mapsto> 141 / 2]\<rparr>
   \<and> date_of example_key = (2024, 11, 6)
   \<and> parse_weight_entry (strip_newlines (''feeding'' @ [CHR 0x0A])) = Inr None
   \<and> process_lines init_state [''Wed, Nov 06, 2024'' @ [CHR 0x0A], ''feeding'' @ [CHR 0x0A]]
        = Inr \<lparr>current_date =
                 \<lparr>year = 2024, month = 11, day = 6, hour = 0, minute = 0, second = 0, microsecond = 0\<rparr>,
               weight_data = Map.empty\<rparr>"
proof -
  have h1: "convert_to_datetime (strip_newlines (''Wed, Nov 06, 2024'' @ [CHR 0x0A]))
     = Some \<lparr>year = 2024, month = 11, day = 6, hour = 0, minute = 0, second = 0, microsecond = 0\<rparr>"
    by (simp add: eval_defs)
  have h2: "\<forall>l \<in> set [''feeding'' @ [CHR 0x0A], ''06:00 Weight 70.5kg'' @ [CHR 0x0A]].
         convert_to_datetime (strip_newlines l) = None"
    by (simp add: eval_defs)
  have h3: "process_lines init_state
        [''Wed, Nov 06, 2024'' @ [CHR 0x0A], ''feeding'' @ [CHR 0x0A], ''06:00 Weight 70.5kg'' @ [CHR 0x0A]]
        = Inr \<lparr>current_date = example_key, weight_data = [example_key \<mapsto> 141 / 2]\<rparr>"
    by (simp add: example_key_def eval_defs)
  from header_sets_date_and_date_persists [OF h1 h2 h3]
  have r: "date_of example_key = (2024, 11, 6)" by (simp add: date_of_def)
  have g2: "\<forall>l \<in> set [''feeding'' @ [CHR 0x0A]]. convert_to_datetime (strip_newlines l) = None"
    by (simp add: eval_defs)
  have g3: "\<forall>l \<in> set [''feeding'' @ [CHR 0x0A]]. parse_weight_entry (strip_newlines l) = Inr None"
    by (simp add: eval_defs)
  obtain st' where g4: "process_lines init_state [''Wed, Nov 06, 2024'' @ [CHR 0x0A], ''feeding'' @ [CHR 0x0A]]
        = Inr st'" and wd: "weight_data st' = Map.empty"
    by (simp add: eval_defs)
  from header_sets_date_and_date_persists [OF h1 g2 g4] g3
  have "current_date st' =
      \<lparr>year = 2024, month = 11, day = 6, hour = 0, minute = 0, second = 0, microsecond = 0\<rparr>"
    by blast
  with wd have "st' = \<lparr>current_date =
                 \<lparr>year = 2024, month = 11, day = 6, hour = 0, minute = 0, second = 0, microsecond = 0\<rparr>,
               weight_data = Map.empty\<rparr>"
    by (cases st') simp
  with g4 have r2: "process_lines init_state [''Wed, Nov 06, 2024'' @ [CHR 0x0A], ''feeding'' @ [CHR 0x0A]]
        = Inr \<lparr>current_date =
                 \<lparr>year = 2024, month = 11, day = 6, hour = 0, minute = 0, second = 0, microsecond = 0\<rparr>,
               weight_data = Map.empty\<rparr>"
    by simp
  from h2 have n1: "convert_to_datetime (strip_newlines (''feeding'' @ [CHR 0x0A])) = None"
    and n2: "convert_to_datetime (strip_newlines (''06:00 Weight 70.5kg'' @ [CHR 0x0A])) = None"
    by simp_all
  from g3 have n3: "parse_weight_entry (strip_newlines (''feeding'' @ [CHR 0x0A])) = Inr None"
    by simp
  from h1 n1 n2 h3 r n3 r2 show ?thesis by (intro conjI)
qed

text \<open>
  C6 as stated fails after a weight line: the line is not a date header, and it leaves
  \<open>current_date\<close> at 06:00, not at midnight.
\<close>

theorem header_sets_date_and_date_persists_counterexample:
  "convert_to_datetime (strip_newlines (''Wed, Nov 06, 2024'' @ [CHR 0x0A]))
     = Some \<lparr>year = 2024, month = 11, day = 6, hour = 0, minute = 0, second = 0, microsecond = 0\<rparr>
   \<and> convert_to_datetime (strip_newlines (''06:00 Weight 70.5kg'' @ [CHR 0x0A])) = None
   \<and> process_lines init_state
        [''Wed, Nov 06, 2024'' @ [CHR 0x0A], ''06:00 Weight 70.5kg'' @ [CHR 0x0A]]
        = Inr \<lparr>current_date =
                 \<lparr>year = 2024, month = 11, day = 6, hour = 6, minute = 0, second = 0, microsecond = 0\<rparr>,
               weight_data =
                 [\<lparr>year = 2024, month = 11, day = 6, hour = 6, minute = 0, second = 0, microsecond = 0\<rparr>
                    \<mapsto> 141 / 2]\<rparr>
   \<and> \<lparr>year = 2024, month = 11, day = 6, hour = 6, minute = 0, second = 0, microsecond = 0\<rparr>
       \<noteq> \<lparr>year = 2024, month = 11, day = 6, hour = 0, minute = 0, second = 0, microsecond = 0\<rparr>"
  by (simp add: eval_defs)

text \<open>
  C7, as the program has it. When the file cannot be opened, \<open>process_file\<close> prints the
  "could not read" diagnostic and returns the empty mapping. When reading fails after
  some lines, it prints the same diagnostic and returns the mapping built from the lines
  read before the failure. The diagnostic differs from the one for a missing file.
\<close>

theorem read_failure_returns_lines_read_so_far:
  "(files w file_name = Some Unopenable
      \<longrightarrow> process_file w file_name = (Inr Map.empty, print_line (could_not_read_msg file_name) w))
   \<and> (files w file_name = Some (Readable raw ReadError) \<and> process_lines init_state raw = Inr st
      \<longrightarrow> process_file w file_name
            = (Inr (weight_data st), print_line (could_not_read_msg file_name) w))
   \<and> could_not_read_msg file_name \<noteq> not_found_msg file_name"
  by (simp add: process_file_def could_not_read_msg_def not_found_msg_def)

theorem read_failure_returns_lines_read_so_far_witness:
  "files (example_world ReadError) ''log/[PiyoLog]Nov.txt'' = Some (Readable example_lines ReadError)
   \<and> process_lines init_state example_lines
       = Inr \<lparr>current_date = example_key, weight_data = [example_key \<mapsto> 71]\<rparr>
   \<and> process_file (example_world ReadError) ''log/[PiyoLog]Nov.txt''
       = (Inr [example_key \<mapsto> 71],
          print_line (could_not_read_msg ''log/[PiyoLog]Nov.txt'') (example_world ReadError))
   \<and> files \<lparr>files = [''log/[PiyoLog]Nov.txt'' \<mapsto> Unopenable], stdout = []\<rparr> ''log/[PiyoLog]Nov.txt''
       = Some Unopenable
   \<and> process_file \<lparr>files = [''log/[PiyoLog]Nov.txt'' \<mapsto> Unopenable], stdout = []\<rparr> ''log/[PiyoLog]Nov.txt''
       = (Inr Map.empty,
          \<lparr>files = [''log/[PiyoLog]Nov.txt'' \<mapsto> Unopenable],
           stdout = [could_not_read_msg ''log/[PiyoLog]Nov.txt'']\<rparr>)"
proof -
  have f: "files (example_world ReadError) ''log/[PiyoLog]Nov.txt'' = Some (Readable example_lines ReadError)"
    by (simp add: example_world_def)
  have u: "files \<lparr>files = [''log/[PiyoLog]Nov.txt'' \<mapsto> Unopenable], stdout = []\<rparr> ''log/[PiyoLog]Nov.txt''
       = Some Unopenable"
    by simp
  from read_failure_returns_lines_read_so_far
    [of "example_world ReadError" "''log/[PiyoLog]Nov.txt''" example_lines
        "\<lparr>current_date = example_key, weight_data = [example_key \<mapsto> 71]\<rparr>"]
    f example_loop
  have r: "process_file (example_world ReadError) ''log/[PiyoLog]Nov.txt''
       = (Inr [example_key \<mapsto> 71],
          print_line (could_not_read_msg ''log/[PiyoLog]Nov.txt'') (example_world ReadError))"
    by simp
  from read_failure_returns_lines_read_so_far
    [of "\<lparr>files = [''log/[PiyoLog]Nov.txt'' \<mapsto> Unopenable], stdout = []\<rparr>" "''log/[PiyoLog]Nov.txt''"] u
  have o: "process_file \<lparr>files = [''log/[PiyoLog]Nov.txt'' \<mapsto> Unopenable], stdout = []\<rparr> ''log/[PiyoLog]Nov.txt''
       = (Inr Map.empty,
          \<lparr>files = [''log/[PiyoLog]Nov.txt'' \<mapsto> Unopenable],
           stdout = [could_not_read_msg ''log/[PiyoLog]Nov.txt'']\<rparr>)"
    by (simp add: print_line_def)
  from f example_loop r u o show ?thesis by (intro conjI)
qed

text \<open>
  C7 as stated fails when reading fails after the three lines of Example 2: the mapping
  returned holds the observation read so far, while a missing file gives the empty
  mapping.
\<close>

theorem read_failure_returns_lines_read_so_far_counterexample:
  "files (example_world ReadError) ''log/[PiyoLog]Nov.txt'' = Some (Readable example_lines ReadError)
   \<and> fst (process_file (example_world ReadError) ''log/[PiyoLog]Nov.txt'') = Inr [example_key \<mapsto> 71]
   \<and> [example_key \<mapsto> (71 :: rat)] \<noteq> Map.empty
   \<and> fst (process_file \<lparr>files = Map.empty, stdout = []\<rparr> ''log/[PiyoLog]Nov.txt'') = Inr Map.empty"
proof -
  have "files (example_world ReadError) ''log/[PiyoLog]Nov.txt'' = Some (Readable example_lines ReadError)"
    by (simp add: example_world_def)
  moreover have "fst (process_file (example_world ReadError) ''log/[PiyoLog]Nov.txt'') = Inr [example_key \<mapsto> 71]"
    by (simp add: example_run)
  moreover have "[example_key \<mapsto> (71 :: rat)] \<noteq> Map.empty"
    by simp
  moreover have "fst (process_file \<lparr>files = Map.empty, stdout = []\<rparr> ''log/[PiyoLog]Nov.txt'') = Inr Map.empty"
    by (simp add: process_file_def)
  ultimately show ?thesis by (intro conjI)
qed


text \<open>
  C9. The claim is that a run that takes the diagnostic path still ends with status 0.
  When the file is missing, \<open>process_file\<close> prints the diagnostic and returns the empty
  mapping, \<open>plot_weight_data\<close> raises on it, and the exception leaves \<open>main\<close>: the
  status is 1.
\<close>

theorem empty_mapping_fails_in_plot:
  "main fit_and_render \<lparr>files = Map.empty, stdout = []\<rparr>
     = (Inl ValueError, \<lparr>files = Map.empty, stdout = [not_found_msg ''log/[PiyoLog]Nov.txt'']\<rparr>)
   \<and> exit_status (fst (main fit_and_render \<lparr>files = Map.empty, stdout = []\<rparr>)) = 1"
  by (simp add: main_def process_file_def plot_weight_data_def exit_status_def print_line_def)

text \<open>
  C10. The weekday token is not checked against the date: when a line parses as a date
  header with one weekday abbreviation, it parses to the same date with any other, and
  the turn of the loop sets \<open>current_date\<close> to that date.
\<close>

theorem weekday_not_cross_validated:
  assumes "map lower a \<in> fst ` set a_weekday" and "map lower b \<in> fst ` set a_weekday"
    and "convert_to_datetime (b @ rest) = Some d"
    and "strip_newlines raw = a @ rest"
  shows "convert_to_datetime (a @ rest) = Some d
         \<and> process_line st raw = Inr (st\<lparr>current_date := d\<rparr>)"
proof -
  from strptime_weekday_token [OF assms(1,2)] assms(3)
  have c: "convert_to_datetime (a @ rest) = Some d"
    by (simp add: convert_to_datetime_def)
  with assms(4) have "convert_to_datetime (strip_newlines raw) = Some d" by simp
  from process_line_header [OF this] c show ?thesis by simp
qed

theorem weekday_not_cross_validated_witness:
  "map lower ''Mon'' \<in> fst ` set a_weekday \<and> map lower ''Wed'' \<in> fst ` set a_weekday
   \<and> convert_to_datetime (''Wed'' @ '', Nov 06, 2024'')
       = Some \<lparr>year = 2024, month = 11, day = 6, hour = 0, minute = 0, second = 0, microsecond = 0\<rparr>
   \<and> strip_newlines (''Mon, Nov 06, 2024'' @ [CHR 0x0A]) = ''Mon'' @ '', Nov 06, 2024''
   \<and> weekday \<lparr>year = 2024, month = 11, day = 6, hour = 0, minute = 0, second = 0, microsecond = 0\<rparr> = 2
   \<and> match_names a_weekday ''Mon, Nov 06, 2024'' = Some (0, '', Nov 06, 2024'')
   \<and> convert_to_datetime ''Mon, Nov 06, 2024''
       = Some \<lparr>year = 2024, month = 11, day = 6, hour = 0, minute = 0, second = 0, microsecond = 0\<rparr>
   \<and> process_line init_state (''Mon, Nov 06, 2024'' @ [CHR 0x0A])
       = Inr \<lparr>current_date =
                \<lparr>year = 2024, month = 11, day = 6, hour = 0, minute = 0, second = 0, microsecond = 0\<rparr>,
              weight_data = Map.empty\<rparr>"
proof -
  have a: "map lower ''Mon'' \<in> fst ` set a_weekday" by (simp add: a_weekday_def lower_def)
  have b: "map lower ''Wed'' \<in> fst ` set a_weekday" by (simp add: a_weekday_def lower_def)
  have c: "convert_to_datetime (''Wed'' @ '', Nov 06, 2024'')
       = Some \<lparr>year = 2024, month = 11, day = 6, hour = 0, minute = 0, second = 0, microsecond = 0\<rparr>"
    by (simp add: eval_defs)
  have s: "strip_newlines (''Mon, Nov 06, 2024'' @ [CHR 0x0A]) = ''Mon'' @ '', Nov 06, 2024''"
    by (simp add: strip_newlines_def)
  have w: "weekday \<lparr>year = 2024, month = 11, day = 6, hour = 0, minute = 0, second = 0, microsecond = 0\<rparr> = 2"
    by (simp add: weekday_def toordinal_def days_before_month_def days_in_month_def is_leap_def upt_rec)
  have m: "match_names a_weekday ''Mon, Nov 06, 2024'' = Some (0, '', Nov 06, 2024'')"
    by (simp add: a_weekday_def lower_def)
  from weekday_not_cross_validated [OF a b c s, of init_state]
  have r: "convert_to_datetime ''Mon, Nov 06, 2024''
       = Some \<lparr>year = 2024, month = 11, day = 6, hour = 0, minute = 0, second = 0, microsecond = 0\<rparr>
     \<and> process_line init_state (''Mon, Nov 06, 2024'' @ [CHR 0x0A])
       = Inr \<lparr>current_date =
                \<lparr>year = 2024, month = 11, day = 6, hour = 0, minute = 0, second = 0, microsecond = 0\<rparr>,
              weight_data = Map.empty\<rparr>"
    by (simp add: init_state_def)
  from a b c s w m r show ?thesis by (intro conjI) simp_all
qed

end
